theory Spec2Isabelle
  imports Main
begin

section \<open>Data model (src/types.ts, src/constants.ts)\<close>

text \<open>
  The seven piece kinds of \<^verbatim>\<open>TetrominoType\<close>. The constructors carry a prefix because
  single capital letters are taken by HOL syntax.
\<close>

datatype TetrominoType = Tet_I | Tet_J | Tet_L | Tet_O | Tet_S | Tet_T | Tet_Z

text \<open>
  A grid cell has the TypeScript type \<^verbatim>\<open>string | null\<close>. A read or a write past the end
  of a JavaScript array does not fail: the read yields \<^verbatim>\<open>undefined\<close> and the write
  extends the array with holes. \<open>Undefined\<close> stands for both.
\<close>

datatype cell = Null | Undefined | Tag string

datatype error = TypeError

datatype Status = PLAYING | PAUSED | GAME_OVER | IDLE

type_synonym shape_t = "int list list"
type_synonym grid_t = "cell list list"

record Position =
  pos_x :: int
  pos_y :: int

record Tetromino =
  ttype :: TetrominoType
  shape :: shape_t
  color :: string
  position :: Position

record Config =
  width :: nat
  height :: nat
  baseSpeed :: nat

record GameState =
  grid :: grid_t
  currentPiece :: "Tetromino option"
  nextPiece :: Tetromino
  heldPiece :: "Tetromino option"
  canHold :: bool
  isFrozen :: bool
  score :: int
  lines :: int
  level :: int
  status :: Status
  config :: Config

definition INITIAL_WIDTH :: nat where
  "INITIAL_WIDTH = 10"

definition INITIAL_HEIGHT :: nat where
  "INITIAL_HEIGHT = 20"

text \<open>The catalog \<^verbatim>\<open>TETROMINOES\<close>: shape matrix and colour tag of every kind.\<close>

fun TETROMINOES_shape :: "TetrominoType \<Rightarrow> shape_t" where
  "TETROMINOES_shape Tet_I = [[0, 0, 0, 0], [1, 1, 1, 1], [0, 0, 0, 0], [0, 0, 0, 0]]"
| "TETROMINOES_shape Tet_J = [[1, 0, 0], [1, 1, 1], [0, 0, 0]]"
| "TETROMINOES_shape Tet_L = [[0, 0, 1], [1, 1, 1], [0, 0, 0]]"
| "TETROMINOES_shape Tet_O = [[1, 1], [1, 1]]"
| "TETROMINOES_shape Tet_S = [[0, 1, 1], [1, 1, 0], [0, 0, 0]]"
| "TETROMINOES_shape Tet_T = [[0, 1, 0], [1, 1, 1], [0, 0, 0]]"
| "TETROMINOES_shape Tet_Z = [[1, 1, 0], [0, 1, 1], [0, 0, 0]]"

fun TETROMINOES_color :: "TetrominoType \<Rightarrow> string" where
  "TETROMINOES_color Tet_I = ''bg-cyan-400 border-cyan-300 shadow-[0_0_10px_rgba(34,211,238,0.8)]''"
| "TETROMINOES_color Tet_J = ''bg-blue-600 border-blue-400 shadow-[0_0_10px_rgba(37,99,235,0.8)]''"
| "TETROMINOES_color Tet_L = ''bg-orange-500 border-orange-300 shadow-[0_0_10px_rgba(249,115,22,0.8)]''"
| "TETROMINOES_color Tet_O = ''bg-yellow-400 border-yellow-200 shadow-[0_0_10px_rgba(250,204,21,0.8)]''"
| "TETROMINOES_color Tet_S = ''bg-green-500 border-green-300 shadow-[0_0_10px_rgba(34,197,94,0.8)]''"
| "TETROMINOES_color Tet_T = ''bg-purple-500 border-purple-300 shadow-[0_0_10px_rgba(168,85,247,0.8)]''"
| "TETROMINOES_color Tet_Z = ''bg-red-500 border-red-300 shadow-[0_0_10px_rgba(239,68,68,0.8)]''"

text \<open>The table \<^verbatim>\<open>SCORING\<close>; a key that is absent reads as \<^verbatim>\<open>undefined\<close>.\<close>

definition SCORING :: "nat \<Rightarrow> int option" where
  "SCORING k = (if k = 1 then Some 100 else if k = 2 then Some 300
                else if k = 3 then Some 500 else if k = 4 then Some 800 else None)"

section \<open>Collision detector (src/App.tsx, checkCollision)\<close>

text \<open>
  JavaScript truthiness of a grid cell: \<^verbatim>\<open>null\<close>, \<^verbatim>\<open>undefined\<close> and the empty string
  are falsy, every other string is truthy.
\<close>

fun truthy :: "cell \<Rightarrow> bool" where
  "truthy Null = False"
| "truthy Undefined = False"
| "truthy (Tag s) = (s \<noteq> [])"

text \<open>
  \<^verbatim>\<open>grid[r][c]\<close>: an absent row is \<^verbatim>\<open>undefined\<close> and indexing it throws; an absent
  column of a present row reads as \<^verbatim>\<open>undefined\<close>.
\<close>

definition grid_get :: "grid_t \<Rightarrow> int \<Rightarrow> int \<Rightarrow> error + cell" where
  "grid_get g r c =
     (if 0 \<le> r \<and> r < int (length g)
      then (if 0 \<le> c \<and> c < int (length (g ! nat r)) then Inr (g ! nat r ! nat c) else Inr Undefined)
      else Inl TypeError)"

text \<open>
  The test of one occupied cell, with the short-circuit order of the source:
  \<^verbatim>\<open>nextX < 0 || nextX >= grid[0].length || nextY >= grid.length || (nextY >= 0 && grid[nextY][nextX])\<close>.
  \<^verbatim>\<open>grid[0].length\<close> throws on a grid without rows.
\<close>

definition hits :: "grid_t \<Rightarrow> int \<Rightarrow> int \<Rightarrow> error + bool" where
  "hits g nextX nextY =
     (if nextX < 0 then Inr True
      else (case g of
              [] \<Rightarrow> Inl TypeError
            | r0 # _ \<Rightarrow>
                if nextX \<ge> int (length r0) then Inr True
                else if nextY \<ge> int (length g) then Inr True
                else if nextY \<ge> 0
                  then (case grid_get g nextY nextX of Inl e \<Rightarrow> Inl e | Inr c \<Rightarrow> Inr (truthy c))
                  else Inr False))"

text \<open>The inner loop over the columns \<open>x\<close> of shape row \<open>y\<close>, from column \<open>x\<close> on.\<close>

fun scan_row :: "Position \<Rightarrow> grid_t \<Rightarrow> int \<Rightarrow> int \<Rightarrow> nat \<Rightarrow> nat \<Rightarrow> int list \<Rightarrow> error + bool" where
  "scan_row pos g moveX moveY y x [] = Inr False"
| "scan_row pos g moveX moveY y x (c # cs) =
     (if c \<noteq> 0
      then (case hits g (pos_x pos + int x + moveX) (pos_y pos + int y + moveY) of
              Inl e \<Rightarrow> Inl e
            | Inr True \<Rightarrow> Inr True
            | Inr False \<Rightarrow> scan_row pos g moveX moveY y (Suc x) cs)
      else scan_row pos g moveX moveY y (Suc x) cs)"

text \<open>The outer loop over the shape rows, from row \<open>y\<close> on.\<close>

fun scan_rows :: "Position \<Rightarrow> grid_t \<Rightarrow> int \<Rightarrow> int \<Rightarrow> nat \<Rightarrow> shape_t \<Rightarrow> error + bool" where
  "scan_rows pos g moveX moveY y [] = Inr False"
| "scan_rows pos g moveX moveY y (r # rs) =
     (case scan_row pos g moveX moveY y 0 r of
        Inl e \<Rightarrow> Inl e
      | Inr True \<Rightarrow> Inr True
      | Inr False \<Rightarrow> scan_rows pos g moveX moveY (Suc y) rs)"

text \<open>
  \<^verbatim>\<open>checkCollision(piece, grid, moveX = 0, moveY = 0, newShape?)\<close>. An array is truthy,
  so \<^verbatim>\<open>newShape || piece.shape\<close> is the override whenever one is passed.
\<close>

definition checkCollision ::
    "Tetromino \<Rightarrow> grid_t \<Rightarrow> int \<Rightarrow> int \<Rightarrow> shape_t option \<Rightarrow> error + bool" where
  "checkCollision piece g moveX moveY newShape =
     scan_rows (position piece) g moveX moveY 0
       (case newShape of None \<Rightarrow> shape piece | Some s \<Rightarrow> s)"

text \<open>
  The property as the specification words it. \<open>cell_at\<close> is the content of the grid at
  a row and a column, \<open>grid_width\<close> the length of the first row.
\<close>

definition cell_at :: "grid_t \<Rightarrow> int \<Rightarrow> int \<Rightarrow> cell" where
  "cell_at g r c = (case grid_get g r c of Inl e \<Rightarrow> Undefined | Inr v \<Rightarrow> v)"

definition grid_width :: "grid_t \<Rightarrow> nat" where
  "grid_width g = (case g of [] \<Rightarrow> 0 | r0 # _ \<Rightarrow> length r0)"

definition cell_touches :: "grid_t \<Rightarrow> int \<Rightarrow> int \<Rightarrow> bool" where
  "cell_touches g nx ny \<longleftrightarrow>
     nx < 0 \<or> nx \<ge> int (grid_width g) \<or> ny \<ge> int (length g) \<or> (ny \<ge> 0 \<and> truthy (cell_at g ny nx))"

definition occupied_cells :: "shape_t \<Rightarrow> (nat \<times> nat) list" where
  "occupied_cells sh =
     concat (map (\<lambda>y. map (\<lambda>x. (x, y)) (filter (\<lambda>x. sh ! y ! x \<noteq> 0) [0..<length (sh ! y)]))
                 [0..<length sh])"

definition collides_spec :: "Tetromino \<Rightarrow> grid_t \<Rightarrow> int \<Rightarrow> int \<Rightarrow> shape_t option \<Rightarrow> bool" where
  "collides_spec piece g dx dy newShape \<longleftrightarrow>
     (\<exists>(x, y) \<in> set (occupied_cells (case newShape of None \<Rightarrow> shape piece | Some s \<Rightarrow> s)).
        cell_touches g (pos_x (position piece) + int x + dx) (pos_y (position piece) + int y + dy))"

section \<open>Piece generator (src/App.tsx, getRandomPiece)\<close>

text \<open>
  \<^verbatim>\<open>getRandomPiece(width)\<close>. The kind that \<^verbatim>\<open>Math.random\<close> selects is the first
  argument. The shape is the catalog's matrix itself (\<^verbatim>\<open>shape: def.shape\<close>).
\<close>

definition getRandomPiece :: "TetrominoType \<Rightarrow> nat \<Rightarrow> Tetromino" where
  "getRandomPiece t w =
     \<lparr>ttype = t, shape = TETROMINOES_shape t, color = TETROMINOES_color t,
      position = \<lparr>pos_x = int (w div 2) - 2, pos_y = 0\<rparr>\<rparr>"

section \<open>Rotation (src/App.tsx, rotate)\<close>

text \<open>
  \<^verbatim>\<open>row[index]\<close> past the end of a row is \<^verbatim>\<open>undefined\<close>, which every reader of a
  shape treats like \<open>0\<close> (it only tests truthiness); it is read as \<open>0\<close> here. It does
  not arise on a rectangular matrix.
\<close>

definition num_at :: "int list \<Rightarrow> nat \<Rightarrow> int" where
  "num_at row index = (if index < length row then row ! index else 0)"

text \<open>
  \<^verbatim>\<open>shape[0].map((_, index) => shape.map(row => row[index]))\<close>; \<^verbatim>\<open>shape[0]\<close> of a
  shape without rows is \<^verbatim>\<open>undefined\<close> and the call throws.
\<close>

definition transposeShape :: "shape_t \<Rightarrow> error + shape_t" where
  "transposeShape sh =
     (case sh of
        [] \<Rightarrow> Inl TypeError
      | r0 # _ \<Rightarrow> Inr (map (\<lambda>index. map (\<lambda>row. num_at row index) sh) [0..<length r0]))"

text \<open>Clockwise reverses every row of the transpose, counter-clockwise reverses the row order.\<close>

definition rotateShape :: "bool \<Rightarrow> shape_t \<Rightarrow> error + shape_t" where
  "rotateShape clockwise sh =
     (case transposeShape sh of
        Inl e \<Rightarrow> Inl e
      | Inr t \<Rightarrow> Inr (if clockwise then map rev t else rev t))"

definition rotate :: "bool \<Rightarrow> GameState \<Rightarrow> error + GameState" where
  "rotate clockwise prev =
     (case currentPiece prev of
        None \<Rightarrow> Inr prev
      | Some p \<Rightarrow>
          if status prev \<noteq> PLAYING \<or> isFrozen prev then Inr prev
          else (case rotateShape clockwise (shape p) of
                  Inl e \<Rightarrow> Inl e
                | Inr newShape \<Rightarrow>
                    (case checkCollision p (grid prev) 0 0 (Some newShape) of
                       Inl e \<Rightarrow> Inl e
                     | Inr False \<Rightarrow> Inr (prev\<lparr>currentPiece := Some (p\<lparr>shape := newShape\<rparr>)\<rparr>)
                     | Inr True \<Rightarrow> Inr prev)))"

text \<open>Four rotations in a row, each applied to the result of the one before.\<close>

definition rotate4 :: "bool \<Rightarrow> shape_t \<Rightarrow> error + shape_t" where
  "rotate4 clockwise sh =
     (case rotateShape clockwise sh of Inl e \<Rightarrow> Inl e | Inr s1 \<Rightarrow>
     (case rotateShape clockwise s1 of Inl e \<Rightarrow> Inl e | Inr s2 \<Rightarrow>
     (case rotateShape clockwise s2 of Inl e \<Rightarrow> Inl e | Inr s3 \<Rightarrow>
        rotateShape clockwise s3)))"

definition square :: "shape_t \<Rightarrow> bool" where
  "square sh \<longleftrightarrow> sh \<noteq> [] \<and> (\<forall>r \<in> set sh. length r = length sh)"

section \<open>Lock and spawn (src/App.tsx, lockPiece)\<close>

text \<open>
  \<^verbatim>\<open>newGrid[gridY][gridX] = v\<close> for \<open>gridY \<ge> 0\<close>. A row that does not exist is
  \<^verbatim>\<open>undefined\<close> and the assignment throws. In a row that exists, a negative column sets
  a property that no array operation reads, a column inside the row overwrites the cell, and a
  column past the end extends the row, the cells in between being holes.
\<close>

definition row_set :: "cell list \<Rightarrow> int \<Rightarrow> cell \<Rightarrow> cell list" where
  "row_set row gridX v =
     (if gridX < 0 then row
      else if nat gridX < length row then row[nat gridX := v]
      else row @ replicate (nat gridX - length row) Undefined @ [v])"

definition grid_set :: "grid_t \<Rightarrow> int \<Rightarrow> int \<Rightarrow> cell \<Rightarrow> error + grid_t" where
  "grid_set g gridY gridX v =
     (if 0 \<le> gridY \<and> nat gridY < length g
      then Inr (g[nat gridY := row_set (g ! nat gridY) gridX v])
      else Inl TypeError)"

text \<open>The inner \<^verbatim>\<open>row.forEach((cell, x) => ...)\<close> of the stamping, from column \<open>x\<close> on.\<close>

fun stamp_row :: "Tetromino \<Rightarrow> nat \<Rightarrow> nat \<Rightarrow> int list \<Rightarrow> grid_t \<Rightarrow> error + grid_t" where
  "stamp_row cp y x [] g = Inr g"
| "stamp_row cp y x (c # cs) g =
     (if c \<noteq> 0 \<and> pos_y (position cp) + int y \<ge> 0
      then (case grid_set g (pos_y (position cp) + int y) (pos_x (position cp) + int x) (Tag (color cp)) of
              Inl e \<Rightarrow> Inl e
            | Inr g' \<Rightarrow> stamp_row cp y (Suc x) cs g')
      else stamp_row cp y (Suc x) cs g)"

text \<open>The outer \<^verbatim>\<open>currentPiece.shape.forEach((row, y) => ...)\<close>, from row \<open>y\<close> on.\<close>

fun stamp_rows :: "Tetromino \<Rightarrow> nat \<Rightarrow> shape_t \<Rightarrow> grid_t \<Rightarrow> error + grid_t" where
  "stamp_rows cp y [] g = Inr g"
| "stamp_rows cp y (r # rs) g =
     (case stamp_row cp y 0 r g of
        Inl e \<Rightarrow> Inl e
      | Inr g' \<Rightarrow> stamp_rows cp (Suc y) rs g')"

definition stamp :: "Tetromino \<Rightarrow> grid_t \<Rightarrow> error + grid_t" where
  "stamp cp g = stamp_rows cp 0 (shape cp) g"

text \<open>\<^verbatim>\<open>row.every(cell => cell !== null)\<close>.\<close>

definition isFull :: "cell list \<Rightarrow> bool" where
  "isFull row = list_all (\<lambda>c. c \<noteq> Null) row"

text \<open>
  The filter that drops the full rows and counts them, then the \<^verbatim>\<open>while\<close> loop that
  puts \<^verbatim>\<open>Array(config.width).fill(null)\<close> in front until the height is reached.
\<close>

definition clearedLinesCount :: "grid_t \<Rightarrow> nat" where
  "clearedLinesCount newGrid = length (filter isFull newGrid)"

definition filteredGrid :: "Config \<Rightarrow> grid_t \<Rightarrow> grid_t" where
  "filteredGrid cfg newGrid =
     (let kept = filter (\<lambda>row. \<not> isFull row) newGrid
      in replicate (height cfg - length kept) (replicate (width cfg) Null) @ kept)"

definition spawnPos :: "Config \<Rightarrow> Position" where
  "spawnPos cfg = \<lparr>pos_x = int (width cfg div 2) - 2, pos_y = 0\<rparr>"

text \<open>
  \<^verbatim>\<open>lockPiece(state)\<close>; the first argument is the kind drawn by the call of
  \<^verbatim>\<open>getRandomPiece\<close> in the spawn branch.
\<close>

definition lockPiece :: "TetrominoType \<Rightarrow> GameState \<Rightarrow> error + GameState" where
  "lockPiece k state =
     (case currentPiece state of
        None \<Rightarrow> Inr state
      | Some cp \<Rightarrow>
          (case stamp cp (grid state) of
             Inl e \<Rightarrow> Inl e
           | Inr newGrid \<Rightarrow>
               (let cleared = clearedLinesCount newGrid;
                    fg = filteredGrid (config state) newGrid;
                    newScore = score state +
                      (if cleared > 0
                       then (case SCORING cleared of None \<Rightarrow> 0 | Some v \<Rightarrow> v) * level state
                       else 0);
                    newLinesTotal = lines state + int cleared;
                    newLevel = newLinesTotal div 10 + 1;
                    nextToSpawn = (nextPiece state)\<lparr>position := spawnPos (config state)\<rparr>
                in (case checkCollision nextToSpawn fg 0 0 None of
                      Inl e \<Rightarrow> Inl e
                    | Inr True \<Rightarrow>
                        Inr (state\<lparr>grid := fg, currentPiece := None, status := GAME_OVER,
                                   score := newScore, isFrozen := False\<rparr>)
                    | Inr False \<Rightarrow>
                        Inr (state\<lparr>grid := fg, currentPiece := Some nextToSpawn,
                                   nextPiece := getRandomPiece k (width (config state)),
                                   canHold := True, isFrozen := False, score := newScore,
                                   lines := newLinesTotal, level := newLevel\<rparr>)))))"

section \<open>Session operations (src/App.tsx)\<close>

definition toggleFreeze :: "GameState \<Rightarrow> GameState" where
  "toggleFreeze prev = (if status prev \<noteq> PLAYING then prev else prev\<lparr>isFrozen := \<not> isFrozen prev\<rparr>)"

definition shift :: "Tetromino \<Rightarrow> int \<Rightarrow> int \<Rightarrow> Tetromino" where
  "shift p dx dy =
     p\<lparr>position := \<lparr>pos_x = pos_x (position p) + dx, pos_y = pos_y (position p) + dy\<rparr>\<rparr>"

definition move :: "TetrominoType \<Rightarrow> int \<Rightarrow> int \<Rightarrow> GameState \<Rightarrow> error + GameState" where
  "move k dx dy prev =
     (case currentPiece prev of
        None \<Rightarrow> Inr prev
      | Some p \<Rightarrow>
          if status prev \<noteq> PLAYING then Inr prev
          else if isFrozen prev \<and> dy \<noteq> 0 then Inr prev
          else (case checkCollision p (grid prev) dx dy None of
                  Inl e \<Rightarrow> Inl e
                | Inr False \<Rightarrow> Inr (prev\<lparr>currentPiece := Some (shift p dx dy)\<rparr>)
                | Inr True \<Rightarrow> if dy > 0 then lockPiece k prev else Inr prev))"

text \<open>
  The loop of hardDrop,
  \<^verbatim>\<open>while (!checkCollision(prev.currentPiece, prev.grid, 0, dropY + 1)) dropY++\<close>.
  It does not end for a piece without an occupied cell; \<open>None\<close> is the loop that never returns.
\<close>

partial_function (option) dropLoop :: "Tetromino \<Rightarrow> grid_t \<Rightarrow> int \<Rightarrow> (error + int) option" where
  "dropLoop p g dropY =
     (case checkCollision p g 0 (dropY + 1) None of
        Inl e \<Rightarrow> Some (Inl e)
      | Inr hit \<Rightarrow> if hit then Some (Inr dropY) else dropLoop p g (dropY + 1))"

declare dropLoop.simps [code]

definition hardDrop :: "TetrominoType \<Rightarrow> GameState \<Rightarrow> (error + GameState) option" where
  "hardDrop k prev =
     (case currentPiece prev of
        None \<Rightarrow> Some (Inr prev)
      | Some p \<Rightarrow>
          if status prev \<noteq> PLAYING then Some (Inr prev)
          else (case dropLoop p (grid prev) 0 of
                  None \<Rightarrow> None
                | Some (Inl e) \<Rightarrow> Some (Inl e)
                | Some (Inr dropY) \<Rightarrow>
                    Some (lockPiece k (prev\<lparr>currentPiece := Some (shift p 0 dropY)\<rparr>))))"

text \<open>
  \<^verbatim>\<open>holdPiece\<close>; the first argument is the kind drawn by \<^verbatim>\<open>getRandomPiece\<close> when the
  hold slot was empty. Nothing in it can throw.
\<close>

definition holdPiece :: "TetrominoType \<Rightarrow> GameState \<Rightarrow> GameState" where
  "holdPiece k prev =
     (case currentPiece prev of
        None \<Rightarrow> prev
      | Some cp \<Rightarrow>
          if \<not> canHold prev \<or> status prev \<noteq> PLAYING then prev
          else (let newHeldPiece =
                      \<lparr>ttype = ttype cp, shape = TETROMINOES_shape (ttype cp),
                       color = TETROMINOES_color (ttype cp), position = \<lparr>pos_x = 0, pos_y = 0\<rparr>\<rparr>;
                    sp = spawnPos (config prev)
                in (case heldPiece prev of
                      None \<Rightarrow>
                        prev\<lparr>heldPiece := Some newHeldPiece,
                             currentPiece := Some ((nextPiece prev)\<lparr>position := sp\<rparr>),
                             nextPiece := getRandomPiece k (width (config prev)),
                             canHold := False\<rparr>
                    | Some h \<Rightarrow>
                        prev\<lparr>heldPiece := Some newHeldPiece,
                             currentPiece :=
                               Some \<lparr>ttype = ttype h, shape = TETROMINOES_shape (ttype h),
                                     color = TETROMINOES_color (ttype h), position = sp\<rparr>,
                             canHold := False\<rparr>)))"

text \<open>The value that \<^verbatim>\<open>useState\<close> is given, and \<^verbatim>\<open>startGame\<close> with its two draws.\<close>

definition initialState :: GameState where
  "initialState =
     \<lparr>grid = replicate INITIAL_HEIGHT (replicate INITIAL_WIDTH Null),
      currentPiece = None,
      nextPiece = \<lparr>ttype = Tet_I, shape = TETROMINOES_shape Tet_I, color = TETROMINOES_color Tet_I,
                   position = \<lparr>pos_x = 0, pos_y = 0\<rparr>\<rparr>,
      heldPiece = None, canHold = True, isFrozen = False, score = 0, lines = 0, level = 1,
      status = IDLE,
      config = \<lparr>width = INITIAL_WIDTH, height = INITIAL_HEIGHT, baseSpeed = 500\<rparr>\<rparr>"

definition startGame :: "TetrominoType \<Rightarrow> TetrominoType \<Rightarrow> GameState \<Rightarrow> GameState" where
  "startGame k1 k2 prev =
     prev\<lparr>grid := replicate INITIAL_HEIGHT (replicate INITIAL_WIDTH Null),
          currentPiece := Some ((getRandomPiece k1 INITIAL_WIDTH)
                                  \<lparr>position := \<lparr>pos_x = int (INITIAL_WIDTH div 2) - 2, pos_y = 0\<rparr>\<rparr>),
          nextPiece := getRandomPiece k2 INITIAL_WIDTH,
          status := PLAYING, score := 0, lines := 0, level := 1, isFrozen := False,
          heldPiece := None, canHold := True\<rparr>"

section \<open>moveToEnd (the second App component of the repository)\<close>

text \<open>
  The repository holds a second version of the App component, stored after the constants in
  src/constants.ts. It has no hold operation, and it is the only place where \<^verbatim>\<open>moveToEnd\<close>
  is written. The loop
  \<^verbatim>\<open>while (!checkCollision(prev.currentPiece, prev.grid, finalDx + dx, 0)) finalDx += dx\<close>
  does not end for \<open>dx = 0\<close> on a piece that does not collide where it is.
\<close>

partial_function (option) slideLoop :: "Tetromino \<Rightarrow> grid_t \<Rightarrow> int \<Rightarrow> int \<Rightarrow> (error + int) option" where
  "slideLoop p g dx finalDx =
     (case checkCollision p g (finalDx + dx) 0 None of
        Inl e \<Rightarrow> Some (Inl e)
      | Inr hit \<Rightarrow> if hit then Some (Inr finalDx) else slideLoop p g dx (finalDx + dx))"

declare slideLoop.simps [code]

definition moveToEnd :: "int \<Rightarrow> GameState \<Rightarrow> (error + GameState) option" where
  "moveToEnd dx prev =
     (case currentPiece prev of
        None \<Rightarrow> Some (Inr prev)
      | Some p \<Rightarrow>
          if status prev \<noteq> PLAYING \<or> isFrozen prev then Some (Inr prev)
          else (case slideLoop p (grid prev) dx 0 of
                  None \<Rightarrow> None
                | Some (Inl e) \<Rightarrow> Some (Inl e)
                | Some (Inr finalDx) \<Rightarrow>
                    Some (Inr (prev\<lparr>currentPiece := Some (shift p finalDx 0)\<rparr>))))"

section \<open>Sessions\<close>

text \<open>
  The intents that the input layer and the gravity timer issue while a session runs. An
  intent that can end in a lock carries the kind that the lock would draw for the queue.
  The gravity tick is \<open>Move 0 1\<close>.
\<close>

datatype Intent =
    Move int int TetrominoType
  | MoveToEnd int
  | Rotate bool
  | HardDrop TetrominoType
  | Hold TetrominoType
  | ToggleFreeze

fun step :: "Intent \<Rightarrow> GameState \<Rightarrow> (error + GameState) option" where
  "step (Move dx dy k) s = Some (move k dx dy s)"
| "step (MoveToEnd dx) s = moveToEnd dx s"
| "step (Rotate clockwise) s = Some (rotate clockwise s)"
| "step (HardDrop k) s = hardDrop k s"
| "step (Hold k) s = Some (Inr (holdPiece k s))"
| "step ToggleFreeze s = Some (Inr (toggleFreeze s))"

fun run :: "Intent list \<Rightarrow> GameState \<Rightarrow> (error + GameState) option" where
  "run [] s = Some (Inr s)"
| "run (i # is) s = (case step i s of Some (Inr s') \<Rightarrow> run is s' | r \<Rightarrow> r)"

text \<open>
  The states of a started session: the start button is shown while the status is not
  \<open>PLAYING\<close>, and every intent that returns moves the session on.
\<close>

inductive session :: "GameState \<Rightarrow> bool" where
  started: "session (startGame k1 k2 initialState)"
| restarted: "session s \<Longrightarrow> status s \<noteq> PLAYING \<Longrightarrow> session (startGame k1 k2 s)"
| stepped: "session s \<Longrightarrow> step i s = Some (Inr s') \<Longrightarrow> session s'"

text \<open>Whether an intent, issued in a state, reaches the call of \<open>lockPiece\<close>.\<close>

fun locks :: "Intent \<Rightarrow> GameState \<Rightarrow> bool" where
  "locks (Move dx dy k) s =
     (case currentPiece s of
        None \<Rightarrow> False
      | Some p \<Rightarrow> status s = PLAYING \<and> \<not> (isFrozen s \<and> dy \<noteq> 0) \<and>
                  checkCollision p (grid s) dx dy None = Inr True \<and> dy > 0)"
| "locks (HardDrop k) s = (currentPiece s \<noteq> None \<and> status s = PLAYING)"
| "locks (MoveToEnd dx) s = False"
| "locks (Rotate clockwise) s = False"
| "locks (Hold k) s = False"
| "locks ToggleFreeze s = False"

text \<open>A run of intents none of which reaches a lock.\<close>

inductive no_lock_run :: "GameState \<Rightarrow> GameState \<Rightarrow> bool" where
  stay: "no_lock_run s s"
| further: "no_lock_run s t \<Longrightarrow> \<not> locks i t \<Longrightarrow> step i t = Some (Inr u) \<Longrightarrow> no_lock_run s u"

text \<open>
  The active piece, if there is one, touches neither a wall, nor the floor, nor a settled
  cell at a row from 0 on.
\<close>

definition legal :: "GameState \<Rightarrow> bool" where
  "legal s \<longleftrightarrow>
     (case currentPiece s of None \<Rightarrow> True | Some p \<Rightarrow> \<not> collides_spec p (grid s) 0 0 None)"

text \<open>The states of a started session in which hold is never used.\<close>

inductive holdless_session :: "GameState \<Rightarrow> bool" where
  begun: "holdless_session (startGame k1 k2 initialState)"
| begun_again: "holdless_session s \<Longrightarrow> status s \<noteq> PLAYING \<Longrightarrow>
                holdless_session (startGame k1 k2 s)"
| moved_on: "holdless_session s \<Longrightarrow> \<forall>k. i \<noteq> Hold k \<Longrightarrow> step i s = Some (Inr s') \<Longrightarrow>
             holdless_session s'"

section \<open>Formulas of the specification\<close>

text \<open>
  The points of one resolution as the specification lists them: 1, 2, 3 and 4 cleared rows
  give 100, 300, 500 and 800, no cleared row gives 0. The source's table has no entry beyond
  four rows, where the delta is 0 as well.
\<close>

definition table_points :: "nat \<Rightarrow> int" where
  "table_points k = (if k = 1 then 100 else if k = 2 then 300 else if k = 3 then 500
                     else if k = 4 then 800 else 0)"

text \<open>The spawn column that the specification gives: half the width minus half the shape's width.\<close>

definition claimed_spawn_x :: "nat \<Rightarrow> shape_t \<Rightarrow> int" where
  "claimed_spawn_x w sh = int (w div 2) - int (length (hd sh) div 2)"

section \<open>Concrete inputs\<close>

definition probe_grid :: grid_t where
  "probe_grid = [[Null, Tag ''a'', Null], [Null, Null, Null]]"

definition probe_piece :: Tetromino where
  "probe_piece = \<lparr>ttype = Tet_O, shape = [[1]], color = ''a'', position = \<lparr>pos_x = 1, pos_y = - 1\<rparr>\<rparr>"

definition standard_config :: Config where
  "standard_config = \<lparr>width = 10, height = 20, baseSpeed = 500\<rparr>"

text \<open>
  A playing state at level 3 whose two bottom rows lack only the columns 4 and 5, with an O
  piece resting in that gap and one settled cell in the row above; then the grid after the
  stamping.
\<close>

definition two_gaps_state :: GameState where
  "two_gaps_state =
     \<lparr>grid = replicate 17 (replicate 10 Null) @
              [Tag (TETROMINOES_color Tet_T) # replicate 9 Null] @
              replicate 2 (replicate 4 (Tag (TETROMINOES_color Tet_J)) @ [Null, Null] @
                           replicate 4 (Tag (TETROMINOES_color Tet_L))),
      currentPiece = Some ((getRandomPiece Tet_O 10)\<lparr>position := \<lparr>pos_x = 4, pos_y = 18\<rparr>\<rparr>),
      nextPiece = getRandomPiece Tet_T 10,
      heldPiece = None, canHold = False, isFrozen = False, score = 1000, lines = 20, level = 3,
      status = PLAYING, config = standard_config\<rparr>"

definition two_gaps_stamped :: grid_t where
  "two_gaps_stamped =
     replicate 17 (replicate 10 Null) @ [Tag (TETROMINOES_color Tet_T) # replicate 9 Null] @
     replicate 2 (replicate 4 (Tag (TETROMINOES_color Tet_J)) @
                  replicate 2 (Tag (TETROMINOES_color Tet_O)) @
                  replicate 4 (Tag (TETROMINOES_color Tet_L)))"

text \<open>
  A playing state with 9 lines on the counter. Rows 4 to 19 lack only column 0, row 3 lacks
  only column 5, rows 0 to 2 are empty. The active I piece stands upright in column 5 on
  rows 0 to 3 and cannot descend; the queued piece is a T.
\<close>

definition upright_I :: Tetromino where
  "upright_I = \<lparr>ttype = Tet_I,
                 shape = [[0, 0, 1, 0], [0, 0, 1, 0], [0, 0, 1, 0], [0, 0, 1, 0]],
                 color = TETROMINOES_color Tet_I,
                 position = \<lparr>pos_x = 3, pos_y = 0\<rparr>\<rparr>"

definition top_out_state :: GameState where
  "top_out_state =
     \<lparr>grid = replicate 3 (replicate 10 Null) @
              [replicate 5 (Tag (TETROMINOES_color Tet_S)) @ [Null] @
               replicate 4 (Tag (TETROMINOES_color Tet_S))] @
              replicate 16 (Null # replicate 9 (Tag (TETROMINOES_color Tet_Z))),
      currentPiece = Some upright_I,
      nextPiece = getRandomPiece Tet_T 10,
      heldPiece = None, canHold = True, isFrozen = False, score = 0, lines = 9, level = 1,
      status = PLAYING, config = standard_config\<rparr>"


text \<open>A session started with an I piece active and a J piece queued.\<close>

definition fresh_session :: GameState where
  "fresh_session = startGame Tet_I Tet_J initialState"


text \<open>
  Five upright I pieces stacked in column 6 of a session started with two I pieces; the
  draws of the five locks are I, I, I, O, I. The tower fills column 6 from the floor to row 0.
  \<open>tower_state\<close> is the state after the fifth lock, \<open>tower_hold_state\<close> the state after
  a hold in it.
\<close>

definition tower_trace :: "Intent list" where
  "tower_trace =
     [Rotate True, Move 1 0 Tet_I, HardDrop Tet_I,
      Rotate True, Move 1 0 Tet_I, HardDrop Tet_I,
      Rotate True, Move 1 0 Tet_I, HardDrop Tet_I,
      Rotate True, Move 1 0 Tet_I, HardDrop Tet_O,
      Rotate True, Move 1 0 Tet_I, HardDrop Tet_I]"

definition tower_state :: GameState where
  "tower_state =
     \<lparr>grid = replicate 20 (replicate 6 Null @ [Tag (TETROMINOES_color Tet_I)] @ replicate 3 Null),
      currentPiece = Some (getRandomPiece Tet_O 10),
      nextPiece = getRandomPiece Tet_I 10,
      heldPiece = None, canHold = True, isFrozen = False, score = 0, lines = 0, level = 1,
      status = PLAYING, config = standard_config\<rparr>"

definition tower_hold_state :: GameState where
  "tower_hold_state =
     \<lparr>grid = replicate 20 (replicate 6 Null @ [Tag (TETROMINOES_color Tet_I)] @ replicate 3 Null),
      currentPiece = Some (getRandomPiece Tet_I 10),
      nextPiece = getRandomPiece Tet_T 10,
      heldPiece = Some \<lparr>ttype = Tet_O, shape = TETROMINOES_shape Tet_O,
                         color = TETROMINOES_color Tet_O, position = \<lparr>pos_x = 0, pos_y = 0\<rparr>\<rparr>,
      canHold = False, isFrozen = False, score = 0, lines = 0, level = 1,
      status = PLAYING, config = standard_config\<rparr>"

section \<open>Properties of the collision detector\<close>

lemma hits_touches:
  "g \<noteq> [] \<Longrightarrow> hits g nx ny = Inr (cell_touches g nx ny)"
  by (cases g) (auto simp: hits_def cell_touches_def grid_width_def cell_at_def grid_get_def)

lemma ex_Suc_less: "(\<exists>i < Suc n. P i) \<longleftrightarrow> P 0 \<or> (\<exists>i < n. P (Suc i))"
  by (auto simp: less_Suc_eq_0_disj)

lemma scan_row_spec:
  "g \<noteq> [] \<Longrightarrow> scan_row pos g mx my y x cs =
     Inr (\<exists>i < length cs. cs ! i \<noteq> 0 \<and>
            cell_touches g (pos_x pos + int (x + i) + mx) (pos_y pos + int y + my))"
proof (induction cs arbitrary: x)
  case Nil
  then show ?case by simp
next
  case (Cons c cs)
  show ?case
    using Cons.prems Cons.IH[OF Cons.prems, of "Suc x"]
    by (auto simp: hits_touches ex_Suc_less algebra_simps split: bool.splits)
qed

lemma scan_rows_spec:
  "g \<noteq> [] \<Longrightarrow> scan_rows pos g mx my y rs =
     Inr (\<exists>j < length rs. \<exists>i < length (rs ! j). rs ! j ! i \<noteq> 0 \<and>
            cell_touches g (pos_x pos + int i + mx) (pos_y pos + int (y + j) + my))"
proof (induction rs arbitrary: y)
  case Nil
  then show ?case by simp
next
  case (Cons r rs)
  show ?case
    using Cons.prems Cons.IH[OF Cons.prems, of "Suc y"]
    by (auto simp: scan_row_spec ex_Suc_less algebra_simps split: bool.splits)
qed

lemma set_occupied_cells:
  "set (occupied_cells sh) = {(x, y). y < length sh \<and> x < length (sh ! y) \<and> sh ! y ! x \<noteq> 0}"
  by (auto simp: occupied_cells_def)

lemma checkCollision_collides_spec:
  "g \<noteq> [] \<Longrightarrow> checkCollision piece g dx dy newShape = Inr (collides_spec piece g dx dy newShape)"
  unfolding checkCollision_def collides_spec_def
  by (simp add: scan_rows_spec set_occupied_cells) blast

text \<open>
  C1. On a grid with at least one row, \<open>checkCollision\<close> returns true if and only if some
  occupied cell of the override shape (or, without one, of the piece's own shape), placed at
  the piece's position plus the offset, lands at a column below 0, at a column from the grid
  width on, at a row from the grid height on, or on a truthy grid cell at a row from 0 on.
  When every occupied cell lands at a negative row, only the side walls decide. (On a grid
  without rows the width is not defined and the source throws.)
\<close>

theorem checkCollision_iff_touch:
  assumes "g \<noteq> []"
  shows "checkCollision piece g dx dy newShape = Inr (collides_spec piece g dx dy newShape) \<and>
    ((\<forall>(x, y) \<in> set (occupied_cells (case newShape of None \<Rightarrow> shape piece | Some s \<Rightarrow> s)).
        pos_y (position piece) + int y + dy < 0) \<longrightarrow>
     collides_spec piece g dx dy newShape =
       (\<exists>(x, y) \<in> set (occupied_cells (case newShape of None \<Rightarrow> shape piece | Some s \<Rightarrow> s)).
          pos_x (position piece) + int x + dx < 0 \<or>
          pos_x (position piece) + int x + dx \<ge> int (grid_width g)))"
proof (intro conjI impI)
  show "checkCollision piece g dx dy newShape = Inr (collides_spec piece g dx dy newShape)"
    using assms by (rule checkCollision_collides_spec)
next
  let ?cells = "set (occupied_cells (case newShape of None \<Rightarrow> shape piece | Some s \<Rightarrow> s))"
  assume neg: "\<forall>(x, y) \<in> ?cells. pos_y (position piece) + int y + dy < 0"
  have "cell_touches g (pos_x (position piece) + int x + dx) (pos_y (position piece) + int y + dy) \<longleftrightarrow>
          pos_x (position piece) + int x + dx < 0 \<or>
          pos_x (position piece) + int x + dx \<ge> int (grid_width g)"
    if "(x, y) \<in> ?cells" for x y
  proof -
    from neg that have "pos_y (position piece) + int y + dy < 0" by blast
    then show ?thesis by (auto simp: cell_touches_def)
  qed
  then show "collides_spec piece g dx dy newShape =
       (\<exists>(x, y) \<in> ?cells.
          pos_x (position piece) + int x + dx < 0 \<or>
          pos_x (position piece) + int x + dx \<ge> int (grid_width g))"
    unfolding collides_spec_def by blast
qed

theorem checkCollision_iff_touch_witness:
  "probe_grid \<noteq> [] \<and>
   checkCollision probe_piece probe_grid 0 1 None = Inr True \<and>
   occupied_cells (shape probe_piece) = [(0, 0)] \<and>
   pos_y (position probe_piece) + int 0 + 0 < 0 \<and>
   checkCollision probe_piece probe_grid 0 0 None = Inr False"
proof -
  have g: "probe_grid \<noteq> []"
    by (simp add: probe_grid_def)
  have down: "collides_spec probe_piece probe_grid 0 1 None"
    by code_simp
  have stay: "\<not> collides_spec probe_piece probe_grid 0 0 None"
    by code_simp
  have neg: "\<forall>(x, y) \<in> set (occupied_cells (shape probe_piece)).
               pos_y (position probe_piece) + int y + 0 < 0"
    by code_simp
  have cells: "occupied_cells (shape probe_piece) = [(0, 0)]"
    by code_simp
  have above: "pos_y (position probe_piece) + int 0 + 0 < 0"
    by (simp add: probe_piece_def)
  show ?thesis
    using g neg down stay cells above
      checkCollision_iff_touch [OF g, of probe_piece 0 1 None]
      checkCollision_iff_touch [OF g, of probe_piece 0 0 None]
    by simp
qed

section \<open>Rotation\<close>

lemma rotateShape_cw_square:
  assumes "square sh"
  shows "\<exists>t. rotateShape True sh = Inr t \<and> square t \<and> length t = length sh \<and>
           (\<forall>i < length sh. \<forall>j < length sh. t ! i ! j = sh ! (length sh - 1 - j) ! i)"
proof -
  let ?n = "length sh"
  from assms obtain r0 rs where sh: "sh = r0 # rs"
    by (cases sh) (auto simp: square_def)
  from assms have len: "\<And>r. r \<in> set sh \<Longrightarrow> length r = ?n"
    by (simp add: square_def)
  have r0: "length r0 = ?n"
    using len[of r0] sh by simp
  let ?t = "map rev (map (\<lambda>index. map (\<lambda>row. num_at row index) sh) [0..<?n])"
  have rot: "rotateShape True sh = Inr ?t"
    using r0 by (simp add: rotateShape_def transposeShape_def sh)
  have n0: "?n > 0"
    using sh by simp
  have sq: "square ?t"
    using n0 by (auto simp: square_def)
  have nth: "?t ! i ! j = sh ! (?n - 1 - j) ! i" if "i < ?n" "j < ?n" for i j
  proof -
    have k: "?n - 1 - j < ?n" using that by arith
    have "?t ! i ! j = rev (map (\<lambda>row. num_at row i) sh) ! j"
      using that by simp
    also have "\<dots> = map (\<lambda>row. num_at row i) sh ! (?n - 1 - j)"
      using that by (simp add: rev_nth)
    also have "\<dots> = num_at (sh ! (?n - 1 - j)) i"
      using k by simp
    also have "\<dots> = sh ! (?n - 1 - j) ! i"
      using that len[of "sh ! (?n - 1 - j)"] k by (simp add: num_at_def)
    finally show ?thesis .
  qed
  show ?thesis
    using rot sq nth by (intro exI[of _ ?t]) simp
qed

lemma square_nth_eq:
  assumes "square a" "square b" "length a = length b"
    and "\<And>i j. i < length a \<Longrightarrow> j < length a \<Longrightarrow> a ! i ! j = b ! i ! j"
  shows "a = b"
proof (rule nth_equalityI)
  show "length a = length b" by fact
next
  fix i assume i: "i < length a"
  then have la: "length (a ! i) = length a" using assms(1) by (simp add: square_def)
  from i assms(3) have lb: "length (b ! i) = length a" using assms(2) by (simp add: square_def)
  show "a ! i = b ! i"
    by (rule nth_equalityI) (use la lb i assms(4) in auto)
qed

text \<open>
  C8. For every square shape matrix (at least one row, every row as long as the matrix is
  high), four clockwise rotations in succession, each one the transpose followed by the
  reversal of every row, return the original matrix.
\<close>

theorem rotate_four_times_identity:
  assumes "square sh"
  shows "rotate4 True sh = Inr sh"
proof -
  let ?n = "length sh"
  from rotateShape_cw_square[OF assms] obtain s1 where
    r1: "rotateShape True sh = Inr s1" and q1: "square s1" and l1: "length s1 = ?n"
    and n1: "\<And>i j. i < ?n \<Longrightarrow> j < ?n \<Longrightarrow> s1 ! i ! j = sh ! (?n - 1 - j) ! i"
    by blast
  from rotateShape_cw_square[OF q1] l1 obtain s2 where
    r2: "rotateShape True s1 = Inr s2" and q2: "square s2" and l2: "length s2 = ?n"
    and n2: "\<And>i j. i < ?n \<Longrightarrow> j < ?n \<Longrightarrow> s2 ! i ! j = s1 ! (?n - 1 - j) ! i"
    by auto
  from rotateShape_cw_square[OF q2] l2 obtain s3 where
    r3: "rotateShape True s2 = Inr s3" and q3: "square s3" and l3: "length s3 = ?n"
    and n3: "\<And>i j. i < ?n \<Longrightarrow> j < ?n \<Longrightarrow> s3 ! i ! j = s2 ! (?n - 1 - j) ! i"
    by auto
  from rotateShape_cw_square[OF q3] l3 obtain s4 where
    r4: "rotateShape True s3 = Inr s4" and q4: "square s4" and l4: "length s4 = ?n"
    and n4: "\<And>i j. i < ?n \<Longrightarrow> j < ?n \<Longrightarrow> s4 ! i ! j = s3 ! (?n - 1 - j) ! i"
    by auto
  have "s4 ! i ! j = sh ! i ! j" if "i < ?n" "j < ?n" for i j
  proof -
    have a: "?n - 1 - j < ?n" "?n - 1 - i < ?n" using that by arith+
    have "s4 ! i ! j = s3 ! (?n - 1 - j) ! i" using that by (rule n4)
    also have "\<dots> = s2 ! (?n - 1 - i) ! (?n - 1 - j)" using a that by (simp add: n3)
    also have "\<dots> = s1 ! (?n - 1 - (?n - 1 - j)) ! (?n - 1 - i)" using a by (simp add: n2)
    also have "\<dots> = s1 ! j ! (?n - 1 - i)" using that by simp
    also have "\<dots> = sh ! (?n - 1 - (?n - 1 - i)) ! j" using a that by (simp add: n1)
    also have "\<dots> = sh ! i ! j" using that by simp
    finally show ?thesis .
  qed
  then have "s4 = sh"
    using q4 assms l4 by (intro square_nth_eq) auto
  then show ?thesis
    using r1 r2 r3 r4 by (simp add: rotate4_def)
qed

theorem rotate_four_times_identity_witness:
  "square (TETROMINOES_shape Tet_T) \<and>
   rotateShape True (TETROMINOES_shape Tet_T) = Inr [[0, 1, 0], [0, 1, 1], [0, 1, 0]] \<and>
   rotate4 True (TETROMINOES_shape Tet_T) = Inr (TETROMINOES_shape Tet_T)"
proof -
  have sq: "square (TETROMINOES_shape Tet_T)"
    by (simp add: square_def)
  have once: "rotateShape True (TETROMINOES_shape Tet_T) = Inr [[0, 1, 0], [0, 1, 1], [0, 1, 0]]"
    by code_simp
  show ?thesis
    using sq once rotate_four_times_identity [OF sq] by simp
qed

section \<open>Lock, line clear and scoring\<close>

lemma filteredGrid_nonempty:
  "0 < height cfg \<Longrightarrow> filteredGrid cfg newGrid \<noteq> []"
  by (auto simp: filteredGrid_def Let_def)

text \<open>
  What \<open>lockPiece\<close> returns once the stamping has gone through, on a configuration of
  positive height: the game-over branch when the queued piece collides at its spawn position
  on the resolved grid, the spawn branch otherwise.
\<close>

lemma lockPiece_result:
  assumes "currentPiece s = Some cp" and "stamp cp (grid s) = Inr newGrid"
    and "0 < height (config s)"
  shows "lockPiece k s =
     Inr (if collides_spec ((nextPiece s)\<lparr>position := spawnPos (config s)\<rparr>)
               (filteredGrid (config s) newGrid) 0 0 None
          then s\<lparr>grid := filteredGrid (config s) newGrid, currentPiece := None,
                 status := GAME_OVER,
                 score := score s + table_points (clearedLinesCount newGrid) * level s,
                 isFrozen := False\<rparr>
          else s\<lparr>grid := filteredGrid (config s) newGrid,
                 currentPiece := Some ((nextPiece s)\<lparr>position := spawnPos (config s)\<rparr>),
                 nextPiece := getRandomPiece k (width (config s)),
                 canHold := True, isFrozen := False,
                 score := score s + table_points (clearedLinesCount newGrid) * level s,
                 lines := lines s + int (clearedLinesCount newGrid),
                 level := (lines s + int (clearedLinesCount newGrid)) div 10 + 1\<rparr>)"
proof -
  have pts: "(if clearedLinesCount newGrid > 0
       then (case SCORING (clearedLinesCount newGrid) of None \<Rightarrow> 0 | Some v \<Rightarrow> v) * level s
       else 0) = table_points (clearedLinesCount newGrid) * level s"
    by (simp add: SCORING_def table_points_def)
  show ?thesis
    using assms(1,2)
    by (simp add: lockPiece_def Let_def pts
        checkCollision_collides_spec[OF filteredGrid_nonempty[OF assms(3)]])
qed

lemma filteredGrid_shape:
  assumes "length newGrid = height cfg"
  shows "filteredGrid cfg newGrid =
    replicate (clearedLinesCount newGrid) (replicate (width cfg) Null) @
    filter (\<lambda>row. \<not> isFull row) newGrid"
proof -
  have "length (filter isFull newGrid) + length (filter (\<lambda>row. \<not> isFull row) newGrid) =
        length newGrid"
    by (rule sum_length_filter_compl)
  then have "height cfg - length (filter (\<lambda>row. \<not> isFull row) newGrid) =
             clearedLinesCount newGrid"
    using assms by (simp add: clearedLinesCount_def)
  then show ?thesis
    by (simp add: filteredGrid_def Let_def)
qed

lemma two_gaps_stamp:
  "stamp ((getRandomPiece Tet_O 10)\<lparr>position := \<lparr>pos_x = 4, pos_y = 18\<rparr>\<rparr>) (grid two_gaps_state) =
     Inr two_gaps_stamped"
  by code_simp

lemma two_gaps_piece:
  "currentPiece two_gaps_state =
     Some ((getRandomPiece Tet_O 10)\<lparr>position := \<lparr>pos_x = 4, pos_y = 18\<rparr>\<rparr>)"
  by (simp add: two_gaps_state_def)

lemma two_gaps_config:
  "config two_gaps_state = standard_config" "height standard_config = 20"
  "width standard_config = 10"
  by (simp_all add: two_gaps_state_def standard_config_def)

text \<open>
  C4. Take a lock whose stamped grid has the configured height and width. The lock returns,
  and its grid is the stamped grid without the rows whose cells are all non-null, the rows
  that remain in their order at the bottom, under as many rows of nulls as were removed; it
  has the configured height and width again.
\<close>

theorem lock_clears_full_rows:
  assumes "currentPiece s = Some cp" and "stamp cp (grid s) = Inr newGrid"
    and "length newGrid = height (config s)"
    and "\<forall>row \<in> set newGrid. length row = width (config s)"
    and "0 < height (config s)"
  shows "\<exists>s'. lockPiece k s = Inr s' \<and>
    grid s' = replicate (clearedLinesCount newGrid) (replicate (width (config s)) Null) @
              filter (\<lambda>row. \<not> isFull row) newGrid \<and>
    length (grid s') = height (config s) \<and>
    (\<forall>row \<in> set (grid s'). length row = width (config s))"
proof -
  let ?fg = "filteredGrid (config s) newGrid"
  from lockPiece_result[OF assms(1,2,5), of k]
  obtain s' where lock: "lockPiece k s = Inr s'" and g: "grid s' = ?fg"
    by (cases "collides_spec ((nextPiece s)\<lparr>position := spawnPos (config s)\<rparr>) ?fg 0 0 None")
      simp_all
  have shape: "?fg = replicate (clearedLinesCount newGrid) (replicate (width (config s)) Null) @
                     filter (\<lambda>row. \<not> isFull row) newGrid"
    using assms(3) by (rule filteredGrid_shape)
  have "length (filter isFull newGrid) + length (filter (\<lambda>row. \<not> isFull row) newGrid) =
        length newGrid"
    by (rule sum_length_filter_compl)
  then have len: "length ?fg = height (config s)"
    using assms(3) by (simp add: shape clearedLinesCount_def)
  have wid: "\<forall>row \<in> set ?fg. length row = width (config s)"
    using assms(4) by (auto simp: shape)
  show ?thesis
    using lock g shape len wid by auto
qed

theorem lock_clears_full_rows_witness:
  "clearedLinesCount two_gaps_stamped = 2 \<and>
   (\<exists>s'. lockPiece Tet_I two_gaps_state = Inr s' \<and>
      grid s' = replicate 19 (replicate 10 Null) @ [Tag (TETROMINOES_color Tet_T) # replicate 9 Null])"
proof -
  have len: "length two_gaps_stamped = height (config two_gaps_state)"
    by (simp add: two_gaps_config two_gaps_stamped_def)
  have wid: "\<forall>row \<in> set two_gaps_stamped. length row = width (config two_gaps_state)"
    by (auto simp: two_gaps_config two_gaps_stamped_def)
  have h: "0 < height (config two_gaps_state)"
    by (simp add: two_gaps_config)
  have n: "clearedLinesCount two_gaps_stamped = 2"
    by code_simp
  have kept: "filter (\<lambda>row. \<not> isFull row) two_gaps_stamped =
              replicate 17 (replicate 10 Null) @ [Tag (TETROMINOES_color Tet_T) # replicate 9 Null]"
    by code_simp
  have join: "replicate 2 (replicate 10 Null) @ replicate 17 (replicate 10 Null) @ [Tag (TETROMINOES_color Tet_T) # replicate 9 Null]
      = replicate 19 (replicate 10 Null) @ [Tag (TETROMINOES_color Tet_T) # replicate 9 Null]"
    by code_simp
  show ?thesis
    using lock_clears_full_rows [OF two_gaps_piece two_gaps_stamp len wid h, of Tet_I] n kept join
    by (auto simp: two_gaps_config)
qed

text \<open>
  C5. A lock that clears \<open>k\<close> rows returns with the score raised by the table value of
  \<open>k\<close> (100, 300, 500, 800 for 1 to 4 rows, 0 for none) times the level of the state
  before the lock; so one row at level 1 adds 100, four rows at level 1 add 800 and two rows
  at level 3 add 900.
\<close>

theorem lock_score_delta:
  assumes "currentPiece s = Some cp" and "stamp cp (grid s) = Inr newGrid"
    and "0 < height (config s)"
  shows "(\<exists>s'. lockPiece k s = Inr s' \<and>
            score s' = score s + table_points (clearedLinesCount newGrid) * level s) \<and>
         table_points 0 = 0 \<and> table_points 1 * 1 = 100 \<and> table_points 4 * 1 = 800 \<and>
         table_points 2 * 3 = 900 \<and> table_points 3 = 500"
proof -
  from lockPiece_result[OF assms, of k]
  have "\<exists>s'. lockPiece k s = Inr s' \<and>
            score s' = score s + table_points (clearedLinesCount newGrid) * level s"
    by (cases "collides_spec ((nextPiece s)\<lparr>position := spawnPos (config s)\<rparr>)
                 (filteredGrid (config s) newGrid) 0 0 None") simp_all
  then show ?thesis
    by (simp add: table_points_def)
qed

theorem lock_score_delta_witness:
  "level two_gaps_state = 3 \<and> score two_gaps_state = 1000 \<and>
   clearedLinesCount two_gaps_stamped = 2 \<and>
   (\<exists>s'. lockPiece Tet_I two_gaps_state = Inr s' \<and> score s' = 1900)"
proof -
  have h: "0 < height (config two_gaps_state)"
    by (simp add: two_gaps_config)
  have n: "clearedLinesCount two_gaps_stamped = 2"
    by code_simp
  have before: "level two_gaps_state = 3" "score two_gaps_state = 1000"
    by (simp_all add: two_gaps_state_def)
  show ?thesis
    using lock_score_delta [OF two_gaps_piece two_gaps_stamp h, of Tet_I] n before
    by (simp add: table_points_def)
qed

text \<open>
  The game-over branch of \<open>lockPiece\<close>: the status, the active piece, the grid, the
  score and the frozen flag are set; the line counter and the level keep their old values.
\<close>

lemma lockPiece_game_over:
  assumes "currentPiece s = Some cp" and "stamp cp (grid s) = Inr newGrid"
    and "0 < height (config s)"
    and "collides_spec ((nextPiece s)\<lparr>position := spawnPos (config s)\<rparr>)
           (filteredGrid (config s) newGrid) 0 0 None"
  shows "\<exists>s'. lockPiece k s = Inr s' \<and> status s' = GAME_OVER \<and> currentPiece s' = None \<and>
    score s' = score s + table_points (clearedLinesCount newGrid) * level s \<and>
    lines s' = lines s \<and> level s' = level s"
  using lockPiece_result[OF assms(1,2,3), of k] assms(4) by simp

text \<open>
  C3 at a concrete state. In \<open>top_out_state\<close> the upright I piece fills the gap of row 3,
  the lock clears that row, and the queued T piece then collides at its spawn position. The
  lock ends the game and adds 100 to the score, and the line counter still reads 9.
\<close>

theorem lock_game_over_keeps_lines:
  "status top_out_state = PLAYING \<and> currentPiece top_out_state = Some upright_I \<and>
   lines top_out_state = 9 \<and> score top_out_state = 0 \<and>
   (case stamp upright_I (grid top_out_state) of
      Inl e \<Rightarrow> False
    | Inr newGrid \<Rightarrow> clearedLinesCount newGrid = 1) \<and>
   (case lockPiece Tet_S top_out_state of
      Inl e \<Rightarrow> False
    | Inr s' \<Rightarrow> status s' = GAME_OVER \<and> currentPiece s' = None \<and> score s' = 100 \<and>
                lines s' = 9 \<and> level s' = 1)"
  by code_simp

text \<open>
  C7, as the source has it. The generated piece carries the catalog's shape and colour of its
  kind and starts at column \<open>floor(width / 2) - 2\<close> of row 0, whatever the width of its shape;
  the piece that a lock installs is the queued piece moved to column
  \<open>floor(config.width / 2) - 2\<close> of row 0. For the I kind, whose matrix is 4 wide, this is the
  column that the specification gives.
\<close>

theorem spawn_position_fixed_offset:
  assumes "lockPiece k s = Inr s'" and "currentPiece s' = Some q"
  shows "getRandomPiece t w =
           \<lparr>ttype = t, shape = TETROMINOES_shape t, color = TETROMINOES_color t,
            position = \<lparr>pos_x = int (w div 2) - 2, pos_y = 0\<rparr>\<rparr> \<and>
         q = (nextPiece s)\<lparr>position := \<lparr>pos_x = int (width (config s) div 2) - 2, pos_y = 0\<rparr>\<rparr> \<and>
         claimed_spawn_x w (TETROMINOES_shape Tet_I) = int (w div 2) - 2"
proof (intro conjI)
  show "getRandomPiece t w =
           \<lparr>ttype = t, shape = TETROMINOES_shape t, color = TETROMINOES_color t,
            position = \<lparr>pos_x = int (w div 2) - 2, pos_y = 0\<rparr>\<rparr>"
    by (simp add: getRandomPiece_def)
next
  show "q = (nextPiece s)\<lparr>position := \<lparr>pos_x = int (width (config s) div 2) - 2, pos_y = 0\<rparr>\<rparr>"
    using assms
    by (auto simp: lockPiece_def Let_def spawnPos_def split: option.splits sum.splits bool.splits)
next
  show "claimed_spawn_x w (TETROMINOES_shape Tet_I) = int (w div 2) - 2"
    by (simp add: claimed_spawn_x_def)
qed

theorem spawn_position_fixed_offset_witness:
  "\<exists>s'. lockPiece Tet_I two_gaps_state = Inr s' \<and>
      currentPiece s' = Some \<lparr>ttype = Tet_T, shape = TETROMINOES_shape Tet_T,
                              color = TETROMINOES_color Tet_T,
                              position = \<lparr>pos_x = 3, pos_y = 0\<rparr>\<rparr>"
proof -
  have "case lockPiece Tet_I two_gaps_state of Inl e \<Rightarrow> False | Inr s' \<Rightarrow> currentPiece s' \<noteq> None"
    by code_simp
  then obtain s' q where lock: "lockPiece Tet_I two_gaps_state = Inr s'"
    and q: "currentPiece s' = Some q"
    by (auto split: sum.splits)
  have "q = (nextPiece two_gaps_state)
              \<lparr>position := \<lparr>pos_x = int (width (config two_gaps_state) div 2) - 2, pos_y = 0\<rparr>\<rparr>"
    using spawn_position_fixed_offset [OF lock q] by simp
  then have "q = \<lparr>ttype = Tet_T, shape = TETROMINOES_shape Tet_T,
                  color = TETROMINOES_color Tet_T, position = \<lparr>pos_x = 3, pos_y = 0\<rparr>\<rparr>"
    by (simp add: two_gaps_state_def standard_config_def getRandomPiece_def)
  then show ?thesis
    using lock q by simp
qed

text \<open>
  C7 as the specification words it fails for the O kind on a field of width 10: the generator
  puts the piece at column 3, the specification's formula gives column 4.
\<close>

theorem spawn_position_counterexample:
  "pos_x (position (getRandomPiece Tet_O 10)) = 3 \<and>
   claimed_spawn_x 10 (TETROMINOES_shape Tet_O) = 4 \<and>
   pos_x (position (getRandomPiece Tet_O 10)) \<noteq> claimed_spawn_x 10 (TETROMINOES_shape Tet_O)"
  by (simp add: getRandomPiece_def claimed_spawn_x_def)

section \<open>Hard drop\<close>







lemma collides_spec_moved:
  "collides_spec (shift p dx dy) g 0 0 None = collides_spec p g dx dy None"
  by (simp add: collides_spec_def shift_def algebra_simps)




section \<open>Hold\<close>

lemma lockPiece_canHold:
  assumes "lockPiece k s = Inr s'" and "currentPiece s = Some cp" and "\<not> canHold s"
  shows "canHold s' \<longleftrightarrow>
           currentPiece s' = Some ((nextPiece s)\<lparr>position := spawnPos (config s)\<rparr>)"
  using assms by (auto simp: lockPiece_def Let_def split: sum.splits bool.splits)

lemma moveToEnd_canHold:
  "moveToEnd dx s = Some (Inr s') \<Longrightarrow> canHold s' = canHold s"
  by (auto simp: moveToEnd_def split: option.splits if_splits sum.splits)

lemma rotate_canHold:
  "rotate cw s = Inr s' \<Longrightarrow> canHold s' = canHold s"
  by (auto simp: rotate_def split: option.splits if_splits sum.splits bool.splits)

lemma holdPiece_canHold:
  "\<not> canHold s \<Longrightarrow> holdPiece k s = s"
  by (simp add: holdPiece_def split: option.splits)

text \<open>
  From a state in which hold is used up, an intent brings hold back exactly when it reaches
  the lock and the lock installs the queued piece at the spawn position.
\<close>

lemma step_canHold:
  assumes "\<not> canHold t" and "step i t = Some (Inr t')"
  shows "canHold t' \<longleftrightarrow>
           locks i t \<and> currentPiece t' = Some ((nextPiece t)\<lparr>position := spawnPos (config t)\<rparr>)"
proof (cases i)
  case (Move dx dy k)
  show ?thesis
  proof (cases "locks i t")
    case True
    then obtain p where p: "currentPiece t = Some p" and "lockPiece k t = Inr t'"
      using assms(2) Move by (auto simp: move_def split: option.splits if_splits)
    with lockPiece_canHold[OF this(2) p assms(1)] True show ?thesis
      by simp
  next
    case False
    then have "canHold t' = canHold t"
      using assms(2) Move
      by (auto simp: move_def split: option.splits if_splits sum.splits bool.splits)
    with False assms(1) show ?thesis by simp
  qed
next
  case (MoveToEnd dx)
  with assms moveToEnd_canHold[of dx t t'] show ?thesis by simp
next
  case (Rotate cw)
  with assms rotate_canHold[of cw t t'] show ?thesis by simp
next
  case (HardDrop k)
  show ?thesis
  proof (cases "locks i t")
    case True
    then obtain p d where p: "currentPiece t = Some p"
      and lock: "lockPiece k (t\<lparr>currentPiece := Some (shift p 0 d)\<rparr>) = Inr t'"
      using assms(2) HardDrop
      by (auto simp: hardDrop_def split: option.splits if_splits sum.splits)
    from lockPiece_canHold[OF lock] assms(1) True show ?thesis
      by simp
  next
    case False
    then have "t' = t"
      using assms(2) HardDrop by (auto simp: hardDrop_def split: option.splits if_splits)
    with False assms(1) show ?thesis by simp
  qed
next
  case (Hold k)
  with assms holdPiece_canHold[of t k] show ?thesis by simp
next
  case ToggleFreeze
  with assms show ?thesis by (auto simp: toggleFreeze_def split: if_splits)
qed

lemma no_lock_run_canHold:
  "no_lock_run s t \<Longrightarrow> \<not> canHold s \<Longrightarrow> \<not> canHold t"
proof (induction rule: no_lock_run.induct)
  case (stay s)
  then show ?case by simp
next
  case (further s t i u)
  then have "\<not> canHold t" by simp
  from step_canHold[OF this further.hyps(3)] further.hyps(2) show ?case
    by simp
qed

text \<open>
  C9. In a playing state with an active piece and hold available, hold makes hold
  unavailable. In every state reached from there by intents that do not reach a lock, a
  further hold returns the state as it is, and an intent makes hold available again exactly
  when it reaches the lock and the lock installs the queued piece as the active one. (A new
  session, begun by the start button once the game is over, makes it available as well.)
\<close>

theorem hold_once_per_piece:
  assumes "status s = PLAYING" and "currentPiece s = Some p" and "canHold s"
    and "no_lock_run (holdPiece k s) t"
  shows "\<not> canHold (holdPiece k s) \<and> holdPiece k' t = t \<and>
    (step i t = Some (Inr t') \<longrightarrow>
       (canHold t' \<longleftrightarrow>
          locks i t \<and>
          currentPiece t' = Some ((nextPiece t)\<lparr>position := spawnPos (config t)\<rparr>)))"
proof -
  have used: "\<not> canHold (holdPiece k s)"
    using assms(1,2,3) by (simp add: holdPiece_def Let_def split: option.splits)
  from no_lock_run_canHold[OF assms(4) used] have t: "\<not> canHold t" .
  show ?thesis
    using used t holdPiece_canHold[OF t, of k'] step_canHold[OF t, of i t']
    by simp
qed

theorem hold_once_per_piece_witness:
  "status fresh_session = PLAYING \<and> canHold fresh_session \<and>
   currentPiece fresh_session = Some (getRandomPiece Tet_I 10) \<and>
   \<not> canHold (holdPiece Tet_S fresh_session) \<and>
   holdPiece Tet_Z (holdPiece Tet_S fresh_session) = holdPiece Tet_S fresh_session \<and>
   locks (HardDrop Tet_L) (holdPiece Tet_S fresh_session) \<and>
   (\<exists>t'. step (HardDrop Tet_L) (holdPiece Tet_S fresh_session) = Some (Inr t') \<and> canHold t' \<and>
      currentPiece t' = Some (getRandomPiece Tet_S 10))"
proof -
  let ?h = "holdPiece Tet_S fresh_session"
  have st: "status fresh_session = PLAYING" and ch: "canHold fresh_session"
    and cp: "currentPiece fresh_session = Some (getRandomPiece Tet_I 10)"
    by (simp_all add: fresh_session_def startGame_def getRandomPiece_def INITIAL_WIDTH_def)
  have "case step (HardDrop Tet_L) ?h of
          Some (Inr t') \<Rightarrow> currentPiece t' = Some ((nextPiece ?h)\<lparr>position := spawnPos (config ?h)\<rparr>)
        | _ \<Rightarrow> False"
    by code_simp
  then obtain t' where t': "step (HardDrop Tet_L) ?h = Some (Inr t')"
    "currentPiece t' = Some ((nextPiece ?h)\<lparr>position := spawnPos (config ?h)\<rparr>)"
    by (auto split: option.splits sum.splits)
  have queued: "(nextPiece ?h)\<lparr>position := spawnPos (config ?h)\<rparr> = getRandomPiece Tet_S 10"
    by code_simp
  have lk: "locks (HardDrop Tet_L) ?h"
    by code_simp
  from hold_once_per_piece [OF st cp ch no_lock_run.stay, of Tet_S Tet_Z "HardDrop Tet_L" t'] t' lk
  have "\<not> canHold ?h \<and> holdPiece Tet_Z ?h = ?h \<and> canHold t'"
    by simp
  then show ?thesis
    using st ch cp lk t' queued by auto
qed

section \<open>Session invariants\<close>

lemma run_session:
  "session s \<Longrightarrow> run is s = Some (Inr s') \<Longrightarrow> session s'"
proof (induction "is" arbitrary: s)
  case Nil
  then show ?case by simp
next
  case (Cons i "is")
  from Cons.prems(2) obtain s1 where s1: "step i s = Some (Inr s1)" "run is s1 = Some (Inr s')"
    by (auto split: option.splits sum.splits)
  from Cons.prems(1) s1(1) have "session s1"
    by (rule session.stepped)
  with Cons.IH s1(2) show ?case by blast
qed





section \<open>Placement of the active piece\<close>

lemma collides_spec_override:
  "collides_spec (p\<lparr>shape := sh\<rparr>) g 0 0 None = collides_spec p g 0 0 (Some sh)"
  by (simp add: collides_spec_def)

lemma slideLoop_legal:
  assumes run: "slideLoop p g dx f = Some r" and g: "g \<noteq> []"
    and ok: "\<not> collides_spec p g f 0 None"
  shows "case r of Inl e \<Rightarrow> False | Inr f' \<Rightarrow> \<not> collides_spec p g f' 0 None"
proof -
  have "g \<noteq> [] \<longrightarrow> \<not> collides_spec p g f 0 None \<longrightarrow>
        (case r of Inl e \<Rightarrow> False | Inr f' \<Rightarrow> \<not> collides_spec p g f' 0 None)"
  proof (rule slideLoop.raw_induct[where P = "\<lambda>p g dx f r. g \<noteq> [] \<longrightarrow>
        \<not> collides_spec p g f 0 None \<longrightarrow>
        (case r of Inl e \<Rightarrow> False | Inr f' \<Rightarrow> \<not> collides_spec p g f' 0 None)", OF _ run])
    fix sl and p :: Tetromino and g :: grid_t and dx f :: int and r :: "error + int"
    assume IH: "\<And>p g dx f r. sl p g dx f = Some r \<Longrightarrow> g \<noteq> [] \<longrightarrow>
        \<not> collides_spec p g f 0 None \<longrightarrow>
        (case r of Inl e \<Rightarrow> False | Inr f' \<Rightarrow> \<not> collides_spec p g f' 0 None)"
      and eq: "(case checkCollision p g (f + dx) 0 None of
                  Inl e \<Rightarrow> Some (Inl e)
                | Inr hit \<Rightarrow> if hit then Some (Inr f) else sl p g dx (f + dx)) = Some r"
    show "g \<noteq> [] \<longrightarrow> \<not> collides_spec p g f 0 None \<longrightarrow>
        (case r of Inl e \<Rightarrow> False | Inr f' \<Rightarrow> \<not> collides_spec p g f' 0 None)"
    proof (intro impI)
      assume g: "g \<noteq> []" and ok: "\<not> collides_spec p g f 0 None"
      show "case r of Inl e \<Rightarrow> False | Inr f' \<Rightarrow> \<not> collides_spec p g f' 0 None"
      proof (cases "collides_spec p g (f + dx) 0 None")
        case True
        with eq g ok show ?thesis
          by (auto simp: checkCollision_collides_spec)
      next
        case False
        with eq g have "sl p g dx (f + dx) = Some r"
          by (simp add: checkCollision_collides_spec)
        from IH[OF this] g False show ?thesis
          by simp
      qed
    qed
  qed
  with g ok show ?thesis by simp
qed

text \<open>
  A lock leaves a legal placement behind: the queued piece is installed only when the
  collision detector lets it through.
\<close>

lemma lockPiece_legal:
  assumes "lockPiece k s = Inr s'" and "currentPiece s \<noteq> None" and "0 < height (config s)"
  shows "legal s' \<and> grid s' \<noteq> [] \<and> config s' = config s"
proof -
  from assms(2) obtain cp where cp: "currentPiece s = Some cp"
    by blast
  from assms(1) cp obtain newGrid where st: "stamp cp (grid s) = Inr newGrid"
    by (auto simp: lockPiece_def split: sum.splits)
  from lockPiece_result[OF cp st assms(3), of k] assms(1)
  show ?thesis
    by (auto simp: legal_def filteredGrid_nonempty[OF assms(3)] split: if_splits)
qed

lemma startGame_legal:
  "legal (startGame k1 k2 s) \<and> grid (startGame k1 k2 s) \<noteq> []"
proof -
  have "\<not> collides_spec ((getRandomPiece k1 INITIAL_WIDTH)
            \<lparr>position := \<lparr>pos_x = int (INITIAL_WIDTH div 2) - 2, pos_y = 0\<rparr>\<rparr>)
          (replicate INITIAL_HEIGHT (replicate INITIAL_WIDTH Null)) 0 0 None"
  proof -
    have "list_all (\<lambda>k. \<not> collides_spec ((getRandomPiece k INITIAL_WIDTH)
            \<lparr>position := \<lparr>pos_x = int (INITIAL_WIDTH div 2) - 2, pos_y = 0\<rparr>\<rparr>)
          (replicate INITIAL_HEIGHT (replicate INITIAL_WIDTH Null)) 0 0 None)
        [Tet_I, Tet_J, Tet_L, Tet_O, Tet_S, Tet_T, Tet_Z]"
      by code_simp
    then show ?thesis
      by (cases k1) simp_all
  qed
  then show ?thesis
    by (simp add: legal_def startGame_def INITIAL_HEIGHT_def)
qed

lemma step_legal:
  assumes "step i s = Some (Inr s')" and "\<forall>k. i \<noteq> Hold k"
    and "legal s" and "grid s \<noteq> []" and "0 < height (config s)"
  shows "legal s' \<and> grid s' \<noteq> [] \<and> config s' = config s"
proof (cases i)
  case (Move dx dy k)
  show ?thesis
  proof (cases "locks i s")
    case True
    then have "lockPiece k s = Inr s'" "currentPiece s \<noteq> None"
      using assms(1) Move by (auto simp: move_def split: option.splits if_splits)
    from lockPiece_legal[OF this assms(5)] show ?thesis .
  next
    case False
    then show ?thesis
      using assms(1,3,4) Move
      by (auto simp: move_def legal_def collides_spec_moved checkCollision_collides_spec
          split: option.splits if_splits sum.splits bool.splits)
  qed
next
  case (MoveToEnd dx)
  show ?thesis
  proof (cases "currentPiece s")
    case None
    with assms MoveToEnd show ?thesis by (simp add: moveToEnd_def)
  next
    case (Some p)
    show ?thesis
    proof (cases "status s \<noteq> PLAYING \<or> isFrozen s")
      case True
      with assms MoveToEnd Some show ?thesis by (auto simp: moveToEnd_def)
    next
      case False
      with assms(1) MoveToEnd Some obtain f where f: "slideLoop p (grid s) dx 0 = Some (Inr f)"
        and s': "s' = s\<lparr>currentPiece := Some (shift p f 0)\<rparr>"
        by (auto simp: moveToEnd_def split: option.splits sum.splits)
      from assms(3) Some have "\<not> collides_spec p (grid s) 0 0 None"
        by (simp add: legal_def)
      from slideLoop_legal[OF f assms(4) this] have "\<not> collides_spec p (grid s) f 0 None"
        by simp
      with s' assms(4) show ?thesis
        by (simp add: legal_def collides_spec_moved)
    qed
  qed
next
  case (Rotate cw)
  with assms(1,3,4) show ?thesis
    by (auto simp: rotate_def legal_def collides_spec_override checkCollision_collides_spec
        split: option.splits if_splits sum.splits bool.splits)
next
  case (HardDrop k)
  show ?thesis
  proof (cases "locks i s")
    case True
    then obtain p d where "lockPiece k (s\<lparr>currentPiece := Some (shift p 0 d)\<rparr>) = Inr s'"
      using assms(1) HardDrop
      by (auto simp: hardDrop_def split: option.splits if_splits sum.splits)
    from lockPiece_legal[OF this] assms(5) show ?thesis by simp
  next
    case False
    then have "s' = s"
      using assms(1) HardDrop by (auto simp: hardDrop_def split: option.splits if_splits)
    with assms show ?thesis by simp
  qed
next
  case (Hold k)
  with assms(2) show ?thesis by simp
next
  case ToggleFreeze
  with assms show ?thesis
    by (auto simp: toggleFreeze_def legal_def split: if_splits option.splits)
qed

text \<open>
  Without hold the placement invariant of C2 holds: in every state that a started session
  reaches by move, moveToEnd, rotate, hardDrop, toggleFreeze and the gravity tick, the active
  piece touches no wall, no floor and no settled cell.
\<close>

lemma holdless_session_legal:
  "holdless_session s \<Longrightarrow> legal s \<and> grid s \<noteq> [] \<and> 0 < height (config s)"
proof (induction rule: holdless_session.induct)
  case (begun k1 k2)
  show ?case
    using startGame_legal[of k1 k2 initialState]
    by (simp add: startGame_def initialState_def INITIAL_HEIGHT_def)
next
  case (begun_again s k1 k2)
  then show ?case
    using startGame_legal[of k1 k2 s] by (simp add: startGame_def)
next
  case (moved_on s i s')
  from step_legal[OF moved_on.hyps(3,2)] moved_on.IH show ?case
    by simp
qed

text \<open>
  C2 at a concrete session: with hold the placement invariant fails. After five upright I
  pieces have been stacked in column 6 the active O piece stands free at the spawn position.
  Hold then installs the queued I piece at the spawn position without asking the collision
  detector: its cell at shape row 1, column 3 lands on row 1, column 6 of the grid, which the
  tower occupies.
\<close>

theorem hold_spawns_into_stack:
  "run tower_trace (startGame Tet_I Tet_I initialState) = Some (Inr tower_state) \<and>
   session tower_state \<and>
   checkCollision (getRandomPiece Tet_O 10) (grid tower_state) 0 0 None = Inr False \<and>
   step (Hold Tet_T) tower_state = Some (Inr tower_hold_state) \<and>
   session tower_hold_state \<and>
   status tower_hold_state = PLAYING \<and>
   currentPiece tower_hold_state = Some (getRandomPiece Tet_I 10) \<and>
   position (getRandomPiece Tet_I 10) = \<lparr>pos_x = 3, pos_y = 0\<rparr> \<and>
   shape (getRandomPiece Tet_I 10) ! 1 ! 3 = 1 \<and>
   cell_at (grid tower_hold_state) 1 6 = Tag (TETROMINOES_color Tet_I) \<and>
   checkCollision (getRandomPiece Tet_I 10) (grid tower_hold_state) 0 0 None = Inr True"
proof -
  have run: "run tower_trace (startGame Tet_I Tet_I initialState) = Some (Inr tower_state)"
    by code_simp
  have "session (startGame Tet_I Tet_I initialState)"
    by (rule session.started)
  from run_session[OF this run] have s1: "session tower_state" .
  have hold: "step (Hold Tet_T) tower_state = Some (Inr tower_hold_state)"
    by code_simp
  from session.stepped[OF s1 hold] have s2: "session tower_hold_state" .
  have free: "checkCollision (getRandomPiece Tet_O 10) (grid tower_state) 0 0 None = Inr False"
    by code_simp
  have hit: "checkCollision (getRandomPiece Tet_I 10) (grid tower_hold_state) 0 0 None = Inr True"
    by code_simp
  have rest: "status tower_hold_state = PLAYING"
    "currentPiece tower_hold_state = Some (getRandomPiece Tet_I 10)"
    "position (getRandomPiece Tet_I 10) = \<lparr>pos_x = 3, pos_y = 0\<rparr>"
    "shape (getRandomPiece Tet_I 10) ! 1 ! 3 = 1"
    by (simp_all add: tower_hold_state_def getRandomPiece_def)
  have cell: "cell_at (grid tower_hold_state) 1 6 = Tag (TETROMINOES_color Tet_I)"
    by code_simp
  show ?thesis
    using run s1 free hold s2 rest cell hit by simp
qed

end
